theory Spec2Isabelle
  imports Complex_Main
begin

section \<open>The polar sampler of pypov (class \<open>ImageToLed\<close> of \<open>pypov.py\<close>)\<close>

text \<open>
  The embedding follows \<open>pypov.py\<close> line by line. Python numbers (\<open>int\<close> and
  \<open>float\<close>) that take part in true division or trigonometry are modelled as \<open>real\<close>:
  the rounding of IEEE doubles is not part of the model. The overflow of a double to an
  infinity, and the exceptions \<open>math.cos\<close>, \<open>math.sin\<close> and \<open>int()\<close> raise on
  the special values, are the subject of a second embedding of \<open>getLedColor\<close>, on
  doubles, which agrees with the first on queries of moderate size. The sample-point
  counts, which the program only uses as integers, are \<open>int\<close>. Every exception the code can raise
  is a value of \<open>pyerror\<close>; a method returns \<open>pyerror + 'a\<close>, with \<open>Inl\<close> the exception.
  The two module globals that \<open>getLedColor\<close> reads (\<open>img\<close> and
  \<open>backgroundFrameColor\<close>) are passed explicitly as a record \<open>globals\<close>.
\<close>

subsection \<open>Exceptions and the loops that propagate them\<close>

datatype pyerror =
  AttributeError | IndexError | OverflowError | TypeError | ValueError | ZeroDivisionError

text \<open>A \<open>for\<close> loop that appends one result per element; the first exception leaves the loop.\<close>

fun mapM :: "('a \<Rightarrow> pyerror + 'b) \<Rightarrow> 'a list \<Rightarrow> pyerror + 'b list" where
  "mapM f [] = Inr []"
| "mapM f (x # xs) =
     (case f x of
        Inl e \<Rightarrow> Inl e
      | Inr y \<Rightarrow> (case mapM f xs of Inl e \<Rightarrow> Inl e | Inr ys \<Rightarrow> Inr (y # ys)))"

text \<open>A \<open>for\<close> loop that updates local variables; the first exception leaves the loop.\<close>

fun foldM :: "('s \<Rightarrow> 'a \<Rightarrow> pyerror + 's) \<Rightarrow> 's \<Rightarrow> 'a list \<Rightarrow> pyerror + 's" where
  "foldM f s [] = Inr s"
| "foldM f s (x # xs) = (case f s x of Inl e \<Rightarrow> Inl e | Inr s' \<Rightarrow> foldM f s' xs)"

subsection \<open>The pygame values the sampler touches\<close>

text \<open>
  A pixel value is either the Python tuple built at line 90 (immutable: item assignment
  raises \<open>TypeError\<close>) or a \<open>pygame.Color\<close> returned by \<open>Surface.get_at\<close> (mutable; a
  channel only accepts 0..255 and raises \<open>ValueError\<close> otherwise). Index 0..3 of either
  is read by \<open>pix_r\<close>, \<open>pix_g\<close>, \<open>pix_b\<close>, \<open>pix_a\<close>.
\<close>

datatype pixel =
    PyTuple (pix_r: int) (pix_g: int) (pix_b: int) (pix_a: int)
  | PgColor (pix_r: int) (pix_g: int) (pix_b: int) (pix_a: int)

type_synonym rgb = "int \<times> int \<times> int"

definition channel_ok :: "int \<Rightarrow> bool" where
  "channel_ok c = (0 \<le> c \<and> c \<le> 255)"

text \<open>Lines 105-107: \<open>imgPixelColor[0..2] = backgroundFrameColor[0..2]\<close>, in place.\<close>

fun set_rgb :: "pixel \<Rightarrow> rgb \<Rightarrow> pyerror + pixel" where
  "set_rgb (PyTuple r g b a) bg = Inl TypeError"
| "set_rgb (PgColor r g b a) (bg0, bg1, bg2) =
     (if channel_ok bg0 \<and> channel_ok bg1 \<and> channel_ok bg2
      then Inr (PgColor bg0 bg1 bg2 a) else Inl ValueError)"

text \<open>
  A surface is its size and its pixels (red, green, blue, alpha), addressed by column
  \<open>x\<close> and row \<open>y\<close>. \<open>get_at\<close> raises \<open>IndexError\<close> outside the surface and
  otherwise returns a fresh \<open>Color\<close>, so mutating the result leaves the surface alone.
\<close>

record surface =
  surf_w :: nat
  surf_h :: nat
  surf_px :: "nat \<Rightarrow> nat \<Rightarrow> int \<times> int \<times> int \<times> int"

definition get_at :: "surface \<Rightarrow> int \<times> int \<Rightarrow> pyerror + pixel" where
  "get_at s p =
     (case p of (x, y) \<Rightarrow>
        if 0 \<le> x \<and> x < int (surf_w s) \<and> 0 \<le> y \<and> y < int (surf_h s)
        then (case surf_px s (nat x) (nat y) of (r, g, b, a) \<Rightarrow> Inr (PgColor r g b a))
        else Inl IndexError)"

text \<open>
  \<open>pygame.Rect\<close>: left, top, width, height; \<open>centerx\<close> and \<open>centery\<close> are derived
  with integer division. \<open>Surface.get_rect()\<close> is the rectangle at the origin with the
  surface's size.
\<close>

record rect =
  rect_x :: int
  rect_y :: int
  rect_w :: int
  rect_h :: int

definition centerx :: "rect \<Rightarrow> int" where
  "centerx r = rect_x r + rect_w r div 2"

definition centery :: "rect \<Rightarrow> int" where
  "centery r = rect_y r + rect_h r div 2"

definition get_rect :: "surface \<Rightarrow> rect" where
  "get_rect s = \<lparr>rect_x = 0, rect_y = 0, rect_w = int (surf_w s), rect_h = int (surf_h s)\<rparr>"

text \<open>Python's \<open>int(x)\<close> on a float truncates towards zero.\<close>

definition py_int :: "real \<Rightarrow> int" where
  "py_int x = (if 0 \<le> x then \<lfloor>x\<rfloor> else \<lceil>x\<rceil>)"

subsection \<open>Module level\<close>

definition getAngleRads :: "real \<Rightarrow> real" where
  "getAngleRads angleDegs = angleDegs * pi / 180"

record globals =
  glob_img :: surface
  backgroundFrameColor :: rgb

subsection \<open>\<open>ImageToLed\<close>: the object and its constructor\<close>

text \<open>
  The attributes \<open>__init__\<close> assigns, and \<open>imgBound\<close>, which only \<open>setImage\<close>
  creates: \<open>None\<close> stands for the attribute not existing yet (reading it raises
  \<open>AttributeError\<close>). For \<open>img\<close>, \<open>None\<close> is Python's \<open>None\<close> of line 51.
\<close>

record ImageToLed =
  angleAverageResolution :: real
  rAverageResolution :: real
  angleAveragePoints :: int
  rAveragePoints :: int
  numberOfAveragedPixels :: int
  img :: "surface option"
  imgBound :: "rect option"

definition init :: "real \<Rightarrow> int \<Rightarrow> real \<Rightarrow> int \<Rightarrow> ImageToLed" where
  "init angleAverageSpan angleAveragePoints0 rAverageSpan rAveragePoints0 =
     (let angleAveragePoints1 =
            (if angleAveragePoints0 mod 2 = 0 then angleAveragePoints0 + 1
             else angleAveragePoints0);
          angleAverageResolution0 =
            (if angleAveragePoints1 > 1
             then angleAverageSpan / real_of_int (angleAveragePoints1 - 1) else 0);
          rAveragePoints1 =
            (if rAveragePoints0 mod 2 = 0 then rAveragePoints0 + 1 else rAveragePoints0);
          rAverageResolution0 =
            (if rAveragePoints1 > 1
             then rAverageSpan / real_of_int (rAveragePoints1 - 1) else 0)
      in \<lparr>angleAverageResolution = getAngleRads angleAverageResolution0,
          rAverageResolution = rAverageResolution0,
          angleAveragePoints = angleAveragePoints1,
          rAveragePoints = rAveragePoints1,
          numberOfAveragedPixels = angleAveragePoints1 * rAveragePoints1,
          img = None,
          imgBound = None\<rparr>)"

definition setImage :: "ImageToLed \<Rightarrow> surface \<Rightarrow> ImageToLed" where
  "setImage self img0 = self\<lparr>img := Some img0, imgBound := Some (get_rect img0)\<rparr>"

subsection \<open>\<open>getLedColorArea\<close>: the footprint\<close>

type_synonym point = "real \<times> real"

text \<open>
  Lines 72-79, the body of the inner loop; \<open>self.imgBound\<close> is first read here. On
  reals \<open>math.cos\<close> and \<open>math.sin\<close> are total; the \<open>ValueError\<close> they raise on an
  infinite double is in \<open>areaPoint_fl\<close> below.
\<close>

definition areaPoint :: "ImageToLed \<Rightarrow> real \<Rightarrow> real \<Rightarrow> int \<Rightarrow> pyerror + point" where
  "areaPoint self dangle ledRPosition r =
     (case imgBound self of
        None \<Rightarrow> Inl AttributeError
      | Some b \<Rightarrow>
          (let dr = ledRPosition
                    + rAverageResolution self
                      * (real_of_int r - real_of_int (rAveragePoints self - 1) / 2);
               xPosition = real_of_int (centerx b) + dr * cos dangle;
               yPosition = real_of_int (centery b) + dr * sin dangle
           in Inr (xPosition, real_of_int (rect_h b) - yPosition)))"

text \<open>Lines 67-80, the body of the outer loop: one row of the grid.\<close>

definition areaRow :: "ImageToLed \<Rightarrow> real \<Rightarrow> real \<Rightarrow> int \<Rightarrow> pyerror + point list" where
  "areaRow self angle ledRPosition t =
     (let dangle = getAngleRads angle
                   + angleAverageResolution self
                     * (real_of_int t - real_of_int (angleAveragePoints self - 1) / 2)
      in mapM (areaPoint self dangle ledRPosition) [0..rAveragePoints self - 1])"

definition getLedColorArea :: "ImageToLed \<Rightarrow> real \<Rightarrow> real \<Rightarrow> pyerror + point list list" where
  "getLedColorArea self angle ledRPosition =
     mapM (areaRow self angle ledRPosition) [0..angleAveragePoints self - 1]"

subsection \<open>\<open>getLedColor\<close>: the averaged colour\<close>

text \<open>
  The local variables the double loop updates. \<open>lastGoodPixel\<close> and
  \<open>imgPixelColor\<close> name the same object from line 98 or line 100 on, so the in-place
  overwrite of lines 105-107 is seen through \<open>lastGoodPixel\<close> too: after the body,
  \<open>lastGoodPixel\<close> is the pixel as overwritten.
\<close>

record locals =
  redValue :: real
  greenValue :: real
  blueValue :: real
  lastGoodPixel :: pixel

text \<open>The condition of line 96 for a known rectangle.\<close>

definition inBounds :: "rect \<Rightarrow> point \<Rightarrow> bool" where
  "inBounds b aa =
     (case aa of (xPosition, yPosition) \<Rightarrow>
        xPosition > -1 \<and> xPosition < real_of_int (rect_w b)
        \<and> yPosition > -1 \<and> yPosition < real_of_int (rect_h b))"

text \<open>
  Line 96: the test, with Python's short-circuit \<open>and\<close>: \<open>self.imgBound\<close> is only
  read once \<open>xPosition > -1\<close> holds.
\<close>

definition inBoundsTest :: "ImageToLed \<Rightarrow> point \<Rightarrow> pyerror + bool" where
  "inBoundsTest self aa =
     (case aa of (xPosition, yPosition) \<Rightarrow>
        if \<not> xPosition > -1 then Inr False
        else (case imgBound self of
                None \<Rightarrow> Inl AttributeError
              | Some b \<Rightarrow>
                  Inr (xPosition < real_of_int (rect_w b)
                       \<and> yPosition > -1 \<and> yPosition < real_of_int (rect_h b))))"

text \<open>Lines 94-110, the body of the inner loop.\<close>

definition colorStep :: "ImageToLed \<Rightarrow> globals \<Rightarrow> locals \<Rightarrow> point \<Rightarrow> pyerror + locals" where
  "colorStep self g st aa =
     (case inBoundsTest self aa of
        Inl e \<Rightarrow> Inl e
      | Inr inside \<Rightarrow>
          (case (if inside
                 then get_at (glob_img g) (py_int (fst aa), py_int (snd aa))
                 else Inr (lastGoodPixel st)) of
             Inl e \<Rightarrow> Inl e
           | Inr imgPixelColor \<Rightarrow>
               (let alphaValue = pix_a imgPixelColor in
                  (case (if alphaValue < 1
                         then set_rgb imgPixelColor (backgroundFrameColor g)
                         else Inr imgPixelColor) of
                     Inl e \<Rightarrow> Inl e
                   | Inr px \<Rightarrow>
                       Inr \<lparr>redValue = redValue st
                                + real_of_int (pix_r px * alphaValue) / 255,
                            greenValue = greenValue st
                                + real_of_int (pix_g px * alphaValue) / 255,
                            blueValue = blueValue st
                                + real_of_int (pix_b px * alphaValue) / 255,
                            lastGoodPixel = px\<rparr>))))"

type_synonym color = "real \<times> real \<times> real"

definition getLedColor :: "ImageToLed \<Rightarrow> globals \<Rightarrow> real \<Rightarrow> real \<Rightarrow> pyerror + color" where
  "getLedColor self g angle ledRPosition =
     (let st0 = \<lparr>redValue = 0, greenValue = 0, blueValue = 0,
                 lastGoodPixel =
                   (case backgroundFrameColor g of (bg0, bg1, bg2) \<Rightarrow> PyTuple bg0 bg1 bg2 255)\<rparr>
      in case getLedColorArea self angle ledRPosition of
           Inl e \<Rightarrow> Inl e
         | Inr averageArea \<Rightarrow>
             (case foldM (foldM (colorStep self g)) st0 averageArea of
                Inl e \<Rightarrow> Inl e
              | Inr st \<Rightarrow>
                  if numberOfAveragedPixels self = 0 then Inl ZeroDivisionError
                  else Inr (redValue st / real_of_int (numberOfAveragedPixels self),
                            greenValue st / real_of_int (numberOfAveragedPixels self),
                            blueValue st / real_of_int (numberOfAveragedPixels self))))"

subsection \<open>\<open>getLedColors\<close>: one colour per sweep angle\<close>

text \<open>
  Lines 121-125. The loop variable starts as the int 0 and the program passes the int 1
  as increment (line 236), so \<open>angle\<close> and \<open>angleIncrement\<close> are Python ints, whose
  addition is exact. A float increment, whose repeated addition rounds, is outside this
  model. The \<open>while\<close> loop does not end when \<open>angleIncrement\<close> is not positive, so
  the loop is a partial function: \<open>None\<close> is the loop running forever.
\<close>

partial_function (option) getLedColorsLoop ::
  "ImageToLed \<Rightarrow> globals \<Rightarrow> int \<Rightarrow> real \<Rightarrow> int \<Rightarrow> color list \<Rightarrow> (pyerror + color list) option" where
  "getLedColorsLoop self g angleIncrement ledRPosition angle ret =
     (if angle < 360
      then (case getLedColor self g (real_of_int angle) ledRPosition of
              Inl e \<Rightarrow> Some (Inl e)
            | Inr c \<Rightarrow>
                getLedColorsLoop self g angleIncrement ledRPosition
                  (angle + angleIncrement) (ret @ [c]))
      else Some (Inr ret))"

definition getLedColors :: "ImageToLed \<Rightarrow> globals \<Rightarrow> int \<Rightarrow> real \<Rightarrow> (pyerror + color list) option" where
  "getLedColors self g angleIncrement ledRPosition =
     getLedColorsLoop self g angleIncrement ledRPosition 0 []"

subsection \<open>The sampling rule in the specification's words\<close>

text \<open>
  The definitions of this subsection restate the specification (section 4.1, operation
  sampleColor); they are what the code is compared with, not a model of the code. A pixel
  is the quadruple (R, G, B, A) that \<open>getPixel\<close> returns.
\<close>

type_synonym rgba = "int \<times> int \<times> int \<times> int"

definition pixelAt :: "surface \<Rightarrow> point \<Rightarrow> rgba" where
  "pixelAt im p = surf_px im (nat (py_int (fst p))) (nat (py_int (snd p)))"

definition opaque :: "rgb \<Rightarrow> rgba" where
  "opaque bg = (case bg of (r, g, b) \<Rightarrow> (r, g, b, 255))"

text \<open>
  Alpha handling and weighting of one pixel: with alpha below 1 the background's R/G/B
  replace the pixel's; each channel is then multiplied by alpha/255.
\<close>

definition weighted :: "rgb \<Rightarrow> rgba \<Rightarrow> color" where
  "weighted bg p =
     (case p of (r, g, b, a) \<Rightarrow>
        (case (if a < 1 then bg else (r, g, b)) of (r', g', b') \<Rightarrow>
           (real_of_int r' * real_of_int a / 255,
            real_of_int g' * real_of_int a / 255,
            real_of_int b' * real_of_int a / 255)))"

definition addColor :: "color \<Rightarrow> color \<Rightarrow> color" where
  "addColor c d =
     (case c of (r, g, b) \<Rightarrow> (case d of (r', g', b') \<Rightarrow> (r + r', g + g', b + b')))"

text \<open>
  The traversal: \<open>lastGood\<close> is \<open>None\<close> until an in-bounds point has been visited,
  then the pixel of the most recent one.
\<close>

fun spec_visit :: "surface \<Rightarrow> rgb \<Rightarrow> rgba option \<Rightarrow> color \<Rightarrow> point list \<Rightarrow> color" where
  "spec_visit im bg lastGood acc [] = acc"
| "spec_visit im bg lastGood acc (p # ps) =
     (if inBounds (get_rect im) p
      then spec_visit im bg (Some (pixelAt im p)) (addColor acc (weighted bg (pixelAt im p))) ps
      else spec_visit im bg lastGood
             (addColor acc (weighted bg (case lastGood of None \<Rightarrow> opaque bg | Some q \<Rightarrow> q))) ps)"


text \<open>
  The pixel that the \<open>i\<close>-th point of a traversal contributes, said without a running
  state: its own pixel when it is in bounds, else the pixel of the last in-bounds point
  among the first \<open>i\<close>, else \<open>fallback\<close> (for a whole traversal, the opaque
  background).
\<close>

definition contributing :: "surface \<Rightarrow> rgba \<Rightarrow> point list \<Rightarrow> nat \<Rightarrow> rgba" where
  "contributing im fallback pts i =
     (if inBounds (get_rect im) (pts ! i) then pixelAt im (pts ! i)
      else (case filter (inBounds (get_rect im)) (take i pts) of
              [] \<Rightarrow> fallback
            | q # qs \<Rightarrow> pixelAt im (last (q # qs))))"

definition sumColors :: "color list \<Rightarrow> color" where
  "sumColors cs = (sum_list (map fst cs), sum_list (map (fst \<circ> snd) cs), sum_list (map (snd \<circ> snd) cs))"

definition scaleColor :: "color \<Rightarrow> real \<Rightarrow> color" where
  "scaleColor c n = (case c of (r, g, b) \<Rightarrow> (r / n, g / n, b / n))"

subsection \<open>Auxiliary definitions for the statements\<close>

text \<open>
  The point that lines 67-78 compute for angular index \<open>t\<close> and radial index \<open>r\<close>,
  once \<open>imgBound\<close> is known to be \<open>b\<close>.
\<close>

definition footprintPoint :: "ImageToLed \<Rightarrow> rect \<Rightarrow> real \<Rightarrow> real \<Rightarrow> int \<Rightarrow> int \<Rightarrow> point" where
  "footprintPoint self b angle ledRPosition t r =
     (let sampleAngle = getAngleRads angle
                        + angleAverageResolution self
                          * (real_of_int t - real_of_int (angleAveragePoints self - 1) / 2);
          sampleRadius = ledRPosition
                         + rAverageResolution self
                           * (real_of_int r - real_of_int (rAveragePoints self - 1) / 2)
      in (real_of_int (centerx b) + sampleRadius * cos sampleAngle,
          real_of_int (rect_h b) - (real_of_int (centery b) + sampleRadius * sin sampleAngle)))"

text \<open>
  The state in which \<open>__main__\<close> calls the sampler (lines 216-233): the object was
  constructed (odd counts, their product stored), \<open>setImage\<close> was called with the
  global image, the image has at least one pixel, and the background is a colour.
\<close>

definition ready :: "ImageToLed \<Rightarrow> globals \<Rightarrow> bool" where
  "ready self g =
     (imgBound self = Some (get_rect (glob_img g))
      \<and> 0 < surf_w (glob_img g) \<and> 0 < surf_h (glob_img g)
      \<and> (case backgroundFrameColor g of (bg0, bg1, bg2) \<Rightarrow>
            channel_ok bg0 \<and> channel_ok bg1 \<and> channel_ok bg2)
      \<and> odd (angleAveragePoints self) \<and> odd (rAveragePoints self)
      \<and> numberOfAveragedPixels self = angleAveragePoints self * rAveragePoints self)"

text \<open>The three accumulators of \<open>getLedColor\<close> as one colour.\<close>

definition colorOf :: "locals \<Rightarrow> color" where
  "colorOf st = (redValue st, greenValue st, blueValue st)"

definition rgba_of :: "pixel \<Rightarrow> rgba" where
  "rgba_of px = (pix_r px, pix_g px, pix_b px, pix_a px)"

text \<open>What lines 104-107 leave in a pixel.\<close>

definition overwritten :: "rgb \<Rightarrow> rgba \<Rightarrow> rgba" where
  "overwritten bg q =
     (case q of (r, g, b, a) \<Rightarrow>
        (case bg of (bg0, bg1, bg2) \<Rightarrow> if a < 1 then (bg0, bg1, bg2, a) else (r, g, b, a)))"

text \<open>
  How the code's \<open>lastGoodPixel\<close> relates to the specification's: the tuple of line 90
  while no in-bounds point has been visited, afterwards a \<open>Color\<close> that agrees with the
  last in-bounds pixel up to the overwrite of lines 104-107.
\<close>

definition tracks :: "rgb \<Rightarrow> pixel \<Rightarrow> rgba option \<Rightarrow> bool" where
  "tracks bg px lastGood =
     (case lastGood of
        None \<Rightarrow> (case bg of (bg0, bg1, bg2) \<Rightarrow> px = PyTuple bg0 bg1 bg2 255)
      | Some q \<Rightarrow> (case px of PyTuple r g b a \<Rightarrow> False
                           | PgColor r g b a \<Rightarrow> overwritten bg (r, g, b, a) = overwritten bg q))"

text \<open>A 4 by 4 opaque surface on which the statements are evaluated.\<close>

definition demoImage :: surface where
  "demoImage = \<lparr>surf_w = 4, surf_h = 4, surf_px = (\<lambda>x y. (int x, int y, 7, 255))\<rparr>"

text \<open>
  The globals and the sampler used to evaluate the statements: a white background, one
  angular and three radial sample points one pixel apart.
\<close>

definition demoGlobals :: globals where
  "demoGlobals = \<lparr>glob_img = demoImage, backgroundFrameColor = (255, 255, 255)\<rparr>"

definition demoSampler :: ImageToLed where
  "demoSampler = setImage (init 0 1 2 3) demoImage"

text \<open>The 4 by 4 surface with every pixel fully transparent.\<close>

definition clearImage :: surface where
  "clearImage = \<lparr>surf_w = 4, surf_h = 4, surf_px = (\<lambda>x y. (int x, int y, 7, 0))\<rparr>"

definition clearGlobals :: globals where
  "clearGlobals = \<lparr>glob_img = clearImage, backgroundFrameColor = (255, 255, 255)\<rparr>"

definition clearSampler :: ImageToLed where
  "clearSampler = setImage (init 0 1 2 3) clearImage"

text \<open>
  A 1 by 1 opaque surface with pixel (10, 20, 30), a white background, and a sampler with
  a single sample point.
\<close>

definition onePixelImage :: surface where
  "onePixelImage = \<lparr>surf_w = 1, surf_h = 1, surf_px = (\<lambda>x y. (10, 20, 30, 255))\<rparr>"

definition onePixelGlobals :: globals where
  "onePixelGlobals = \<lparr>glob_img = onePixelImage, backgroundFrameColor = (255, 255, 255)\<rparr>"

definition onePixelSampler :: ImageToLed where
  "onePixelSampler = setImage (init 0 1 0 1) onePixelImage"

text \<open>On the same surface, a sampler with three radial sample points one pixel apart.\<close>

definition onePixelRadialSampler :: ImageToLed where
  "onePixelRadialSampler = setImage (init 0 1 2 3) onePixelImage"

subsection \<open>The sampler on doubles that overflow\<close>






























section \<open>Properties\<close>

subsection \<open>Construction\<close>

lemma init_fields:
  "angleAveragePoints (init sa na sr nr) = (if na mod 2 = 0 then na + 1 else na)"
  "rAveragePoints (init sa na sr nr) = (if nr mod 2 = 0 then nr + 1 else nr)"
  "numberOfAveragedPixels (init sa na sr nr) =
     angleAveragePoints (init sa na sr nr) * rAveragePoints (init sa na sr nr)"
  "angleAverageResolution (init sa na sr nr) =
     getAngleRads (if angleAveragePoints (init sa na sr nr) > 1
                   then sa / real_of_int (angleAveragePoints (init sa na sr nr) - 1) else 0)"
  "rAverageResolution (init sa na sr nr) =
     (if rAveragePoints (init sa na sr nr) > 1
      then sr / real_of_int (rAveragePoints (init sa na sr nr) - 1) else 0)"
  "img (init sa na sr nr) = None"
  "imgBound (init sa na sr nr) = None"
  by (simp_all add: init_def Let_def)

lemma setImage_fields:
  "angleAverageResolution (setImage self im) = angleAverageResolution self"
  "rAverageResolution (setImage self im) = rAverageResolution self"
  "angleAveragePoints (setImage self im) = angleAveragePoints self"
  "rAveragePoints (setImage self im) = rAveragePoints self"
  "numberOfAveragedPixels (setImage self im) = numberOfAveragedPixels self"
  "img (setImage self im) = Some im"
  "imgBound (setImage self im) = Some (get_rect im)"
  by (simp_all add: setImage_def)


lemma init_odd:
  "odd (angleAveragePoints (init sa na sr nr))" "odd (rAveragePoints (init sa na sr nr))"
  by (auto simp: init_fields)



subsection \<open>The footprint\<close>

lemma mapM_total:
  "(\<And>x. x \<in> set xs \<Longrightarrow> f x = Inr (h x)) \<Longrightarrow> mapM f xs = Inr (map h xs)"
  by (induction xs) simp_all

lemma getLedColorArea_closed:
  assumes "imgBound self = Some b"
  shows "getLedColorArea self angle ledRPosition =
     Inr (map (\<lambda>t. map (footprintPoint self b angle ledRPosition t) [0..rAveragePoints self - 1])
            [0..angleAveragePoints self - 1])"
  unfolding getLedColorArea_def
  apply (rule mapM_total)
  unfolding areaRow_def Let_def
  apply (rule mapM_total)
  apply (simp add: areaPoint_def assms footprintPoint_def Let_def)
  done

lemma demo_rect:
  "centerx (get_rect demoImage) = 2" "centery (get_rect demoImage) = 2"
  "rect_w (get_rect demoImage) = 4" "rect_h (get_rect demoImage) = 4"
  by (simp_all add: centerx_def centery_def get_rect_def demoImage_def)






subsection \<open>The colour of one query\<close>

lemma foldM_append:
  "foldM f s (xs @ ys) = (case foldM f s xs of Inl e \<Rightarrow> Inl e | Inr s' \<Rightarrow> foldM f s' ys)"
  by (induction xs arbitrary: s) (simp_all split: sum.splits)

lemma foldM_concat: "foldM (foldM f) s xss = foldM f s (concat xss)"
  by (induction xss arbitrary: s) (simp_all add: foldM_append split: sum.splits)

lemma inBoundsTest_known:
  "imgBound self = Some b \<Longrightarrow> inBoundsTest self aa = Inr (inBounds b aa)"
  by (auto simp: inBoundsTest_def inBounds_def split: prod.splits)

lemma py_int_index:
  assumes "-1 < x" and "x < real n" and "0 < n"
  shows "0 \<le> py_int x" and "py_int x < int n"
proof -
  show "0 \<le> py_int x"
    using assms(1) by (auto simp: py_int_def le_ceiling_iff)
  show "py_int x < int n"
  proof (cases "0 \<le> x")
    case True
    then show ?thesis using assms(2) by (simp add: py_int_def floor_less_iff)
  next
    case False
    then have "\<lceil>x\<rceil> \<le> 0" by (simp add: ceiling_le_iff)
    moreover have "0 < int n" using assms(3) by simp
    ultimately have "\<lceil>x\<rceil> < int n" by linarith
    then show ?thesis using False by (simp add: py_int_def)
  qed
qed

lemma inBounds_index:
  assumes "inBounds (get_rect im) p" and "0 < surf_w im" and "0 < surf_h im"
  shows "0 \<le> py_int (fst p)" "py_int (fst p) < int (surf_w im)"
    "0 \<le> py_int (snd p)" "py_int (snd p) < int (surf_h im)"
  using assms
  by (auto simp: inBounds_def get_rect_def split: prod.splits intro: py_int_index)

lemma get_at_inBounds:
  assumes "inBounds (get_rect im) p" and "0 < surf_w im" and "0 < surf_h im"
  shows "get_at im (py_int (fst p), py_int (snd p))
         = Inr (case pixelAt im p of (r, g, b, a) \<Rightarrow> PgColor r g b a)"
  using inBounds_index [OF assms]
  by (simp add: get_at_def pixelAt_def split: prod.splits)

lemma weighted_overwritten: "weighted bg (overwritten bg q) = weighted bg q"
  by (auto simp: weighted_def overwritten_def split: prod.splits)

lemma overwritten_idem: "overwritten bg (overwritten bg q) = overwritten bg q"
  by (auto simp: overwritten_def split: prod.splits)

text \<open>Lines 103-110 for a pixel that is a Color, or a tuple that is not transparent.\<close>

lemma colorStep_tail:
  assumes bg: "backgroundFrameColor g = (bg0, bg1, bg2)"
      "channel_ok bg0" "channel_ok bg1" "channel_ok bg2"
    and c: "(\<exists>r g b a. c = PgColor r g b a) \<or> (c = PyTuple bg0 bg1 bg2 255)"
  shows "\<exists>px. (if pix_a c < 1 then set_rgb c (backgroundFrameColor g) else Inr c) = Inr px
      \<and> (real_of_int (pix_r px * pix_a c) / 255, real_of_int (pix_g px * pix_a c) / 255,
          real_of_int (pix_b px * pix_a c) / 255) = weighted (bg0, bg1, bg2) (rgba_of c)
      \<and> rgba_of px = overwritten (bg0, bg1, bg2) (rgba_of c)
      \<and> ((\<exists>r g b a. c = PgColor r g b a) \<longrightarrow> (\<exists>r g b a. px = PgColor r g b a))
      \<and> (c = PyTuple bg0 bg1 bg2 255 \<longrightarrow> px = c)"
  using c
proof
  assume "\<exists>r g b a. c = PgColor r g b a"
  then obtain r g' b a where cc: "c = PgColor r g' b a" by blast
  show ?thesis
    by (cases "a < 1") (simp_all add: cc bg weighted_def rgba_of_def overwritten_def)
next
  assume "c = PyTuple bg0 bg1 bg2 255"
  then show ?thesis
    by (simp add: weighted_def rgba_of_def overwritten_def)
qed

lemma colorStep_sim:
  assumes rdy: "ready self g"
    and tr: "tracks (backgroundFrameColor g) (lastGoodPixel st) lastGood"
  shows "\<exists>st'. colorStep self g st p = Inr st'
     \<and> colorOf st' = addColor (colorOf st)
          (weighted (backgroundFrameColor g)
             (if inBounds (get_rect (glob_img g)) p then pixelAt (glob_img g) p
              else (case lastGood of None \<Rightarrow> opaque (backgroundFrameColor g) | Some q \<Rightarrow> q)))
     \<and> tracks (backgroundFrameColor g) (lastGoodPixel st')
          (if inBounds (get_rect (glob_img g)) p then Some (pixelAt (glob_img g) p) else lastGood)"
proof -
  let ?im = "glob_img g"
  obtain bg0 bg1 bg2 where bg: "backgroundFrameColor g = (bg0, bg1, bg2)"
    by (cases "backgroundFrameColor g") auto
  from rdy have b: "imgBound self = Some (get_rect ?im)"
    and wh: "0 < surf_w ?im" "0 < surf_h ?im"
    and ok: "channel_ok bg0" "channel_ok bg1" "channel_ok bg2"
    by (simp_all add: ready_def bg)
  let ?inside = "inBounds (get_rect ?im) p"
  let ?src = "if ?inside then pixelAt ?im p
              else (case lastGood of None \<Rightarrow> opaque (backgroundFrameColor g) | Some q \<Rightarrow> q)"
  let ?c = "if ?inside then (case pixelAt ?im p of (r, g, b, a) \<Rightarrow> PgColor r g b a)
            else lastGoodPixel st"
  have fetch: "(if ?inside then get_at ?im (py_int (fst p), py_int (snd p))
                else Inr (lastGoodPixel st)) = Inr ?c"
    using get_at_inBounds [OF _ wh] by simp
  have shape: "(\<exists>r g b a. ?c = PgColor r g b a) \<or> ?c = PyTuple bg0 bg1 bg2 255"
    using tr by (auto simp: tracks_def bg split: option.splits pixel.splits prod.splits)
  from colorStep_tail [OF bg ok shape] obtain px where
    px: "(if pix_a ?c < 1 then set_rgb ?c (backgroundFrameColor g) else Inr ?c) = Inr px"
    and contrib: "(real_of_int (pix_r px * pix_a ?c) / 255, real_of_int (pix_g px * pix_a ?c) / 255,
          real_of_int (pix_b px * pix_a ?c) / 255) = weighted (bg0, bg1, bg2) (rgba_of ?c)"
    and ov: "rgba_of px = overwritten (bg0, bg1, bg2) (rgba_of ?c)"
    and col: "(\<exists>r g b a. ?c = PgColor r g b a) \<longrightarrow> (\<exists>r g b a. px = PgColor r g b a)"
    and tup: "?c = PyTuple bg0 bg1 bg2 255 \<longrightarrow> px = ?c"
    by blast
  let ?st' = "\<lparr>redValue = redValue st + real_of_int (pix_r px * pix_a ?c) / 255,
               greenValue = greenValue st + real_of_int (pix_g px * pix_a ?c) / 255,
               blueValue = blueValue st + real_of_int (pix_b px * pix_a ?c) / 255,
               lastGoodPixel = px\<rparr>"
  have step: "colorStep self g st p = Inr ?st'"
    unfolding colorStep_def inBoundsTest_known [OF b] sum.case fetch Let_def px
    by simp
  have same_weight: "weighted (bg0, bg1, bg2) (rgba_of ?c) = weighted (backgroundFrameColor g) ?src"
  proof (cases ?inside)
    case True
    then show ?thesis by (simp add: rgba_of_def bg split: prod.splits)
  next
    case False
    show ?thesis
    proof (cases lastGood)
      case None
      then show ?thesis using False tr by (simp add: tracks_def bg rgba_of_def opaque_def)
    next
      case (Some q)
      then obtain r g' b' a where lg: "lastGoodPixel st = PgColor r g' b' a"
        and eq: "overwritten (bg0, bg1, bg2) (r, g', b', a) = overwritten (bg0, bg1, bg2) q"
        using tr by (auto simp: tracks_def bg split: pixel.splits)
      have "weighted (bg0, bg1, bg2) (r, g', b', a) = weighted (bg0, bg1, bg2) q"
        using eq by (metis weighted_overwritten)
      then show ?thesis using False Some lg by (simp add: rgba_of_def bg)
    qed
  qed
  have acc: "colorOf ?st' = addColor (colorOf st) (weighted (backgroundFrameColor g) ?src)"
    unfolding same_weight [symmetric] contrib [symmetric]
    by (simp add: colorOf_def addColor_def)
  have tr': "tracks (backgroundFrameColor g) px (if ?inside then Some (pixelAt ?im p) else lastGood)"
  proof (cases ?inside)
    case True
    obtain r g' b' a where pa: "pixelAt ?im p = (r, g', b', a)" by (cases "pixelAt ?im p") auto
    with True have c: "?c = PgColor r g' b' a" by simp
    with col obtain r2 g2 b2 a2 where p2: "px = PgColor r2 g2 b2 a2" by auto
    have "(r2, g2, b2, a2) = overwritten (bg0, bg1, bg2) (r, g', b', a)"
      using ov unfolding c p2 by (simp add: rgba_of_def)
    then show ?thesis using True by (simp add: tracks_def bg p2 pa overwritten_idem)
  next
    case False
    show ?thesis
    proof (cases lastGood)
      case None
      then have "?c = PyTuple bg0 bg1 bg2 255" using False tr by (simp add: tracks_def bg)
      with tup have "px = PyTuple bg0 bg1 bg2 255" by simp
      then show ?thesis using False None by (simp add: tracks_def bg)
    next
      case (Some q)
      then obtain r g' b' a where lg: "lastGoodPixel st = PgColor r g' b' a"
        and eq: "overwritten (bg0, bg1, bg2) (r, g', b', a) = overwritten (bg0, bg1, bg2) q"
        using tr by (auto simp: tracks_def bg split: pixel.splits)
      from False lg have c: "?c = PgColor r g' b' a" by simp
      with col obtain r2 g2 b2 a2 where p2: "px = PgColor r2 g2 b2 a2" by auto
      have "(r2, g2, b2, a2) = overwritten (bg0, bg1, bg2) (r, g', b', a)"
        using ov unfolding c p2 by (simp add: rgba_of_def)
      then show ?thesis using False Some eq by (simp add: tracks_def bg p2 overwritten_idem)
    qed
  qed
  have tr'': "tracks (backgroundFrameColor g) (lastGoodPixel ?st')
      (if ?inside then Some (pixelAt ?im p) else lastGood)"
    using tr' by simp
  from step acc tr'' show ?thesis by blast
qed

lemma foldM_colorStep_sim:
  assumes "ready self g"
  shows "tracks (backgroundFrameColor g) (lastGoodPixel st) lastGood \<Longrightarrow>
     \<exists>st'. foldM (colorStep self g) st ps = Inr st'
       \<and> colorOf st' = spec_visit (glob_img g) (backgroundFrameColor g) lastGood (colorOf st) ps"
proof (induction ps arbitrary: st lastGood)
  case Nil
  then show ?case by simp
next
  case (Cons p ps)
  from colorStep_sim [OF assms Cons.prems, of p] obtain st1 where
    s1: "colorStep self g st p = Inr st1"
    and c1: "colorOf st1 = addColor (colorOf st)
          (weighted (backgroundFrameColor g)
             (if inBounds (get_rect (glob_img g)) p then pixelAt (glob_img g) p
              else (case lastGood of None \<Rightarrow> opaque (backgroundFrameColor g) | Some q \<Rightarrow> q)))"
    and t1: "tracks (backgroundFrameColor g) (lastGoodPixel st1)
          (if inBounds (get_rect (glob_img g)) p then Some (pixelAt (glob_img g) p) else lastGood)"
    by blast
  from Cons.IH [OF t1] obtain st' where
    s2: "foldM (colorStep self g) st1 ps = Inr st'"
    and c2: "colorOf st' = spec_visit (glob_img g) (backgroundFrameColor g)
         (if inBounds (get_rect (glob_img g)) p then Some (pixelAt (glob_img g) p) else lastGood)
         (colorOf st1) ps"
    by blast
  show ?case
    using s1 s2 c1 c2 by (cases "inBounds (get_rect (glob_img g)) p") simp_all
qed

lemma ready_nonzero: "ready self g \<Longrightarrow> numberOfAveragedPixels self \<noteq> 0"
  by (auto simp: ready_def)

lemma getLedColor_as_visit:
  assumes rdy: "ready self g" and area: "getLedColorArea self angle ledRPosition = Inr area"
  shows "getLedColor self g angle ledRPosition =
     Inr (scaleColor (spec_visit (glob_img g) (backgroundFrameColor g) None (0, 0, 0) (concat area))
            (real_of_int (numberOfAveragedPixels self)))"
proof -
  let ?st0 = "\<lparr>redValue = 0, greenValue = 0, blueValue = 0,
                 lastGoodPixel =
                   (case backgroundFrameColor g of (bg0, bg1, bg2) \<Rightarrow> PyTuple bg0 bg1 bg2 255)\<rparr>"
  have t0: "tracks (backgroundFrameColor g) (lastGoodPixel ?st0) None"
    by (simp add: tracks_def split: prod.splits)
  from foldM_colorStep_sim [OF rdy t0, of "concat area"] obtain st' where
    f: "foldM (colorStep self g) ?st0 (concat area) = Inr st'"
    and c: "colorOf st' = spec_visit (glob_img g) (backgroundFrameColor g) None (colorOf ?st0) (concat area)"
    by blast
  have c0: "colorOf ?st0 = (0, 0, 0)" by (simp add: colorOf_def)
  have "getLedColor self g angle ledRPosition =
     Inr (scaleColor (colorOf st') (real_of_int (numberOfAveragedPixels self)))"
    unfolding getLedColor_def Let_def area sum.case foldM_concat f
    using ready_nonzero [OF rdy] by (simp add: scaleColor_def colorOf_def)
  then show ?thesis unfolding c c0 .
qed

lemma ready_setup:
  assumes "0 < surf_w (glob_img g)" and "0 < surf_h (glob_img g)"
    and "backgroundFrameColor g = (bg0, bg1, bg2)"
    and "channel_ok bg0" "channel_ok bg1" "channel_ok bg2"
  shows "ready (setImage (init sa na sr nr) (glob_img g)) g"
  using assms init_odd [of sa na sr nr]
  by (simp add: ready_def setImage_fields init_fields(3))

lemma getLedColorArea_total:
  "imgBound self = Some b \<Longrightarrow> \<exists>area. getLedColorArea self angle ledRPosition = Inr area"
  by (simp add: getLedColorArea_closed)


lemma demo_globals:
  "glob_img demoGlobals = demoImage" "backgroundFrameColor demoGlobals = (255, 255, 255)"
  by (simp_all add: demoGlobals_def)

lemma demo_ready: "ready demoSampler demoGlobals"
  unfolding demoSampler_def
  using ready_setup [of demoGlobals 255 255 255 0 1 2 3]
  by (simp add: demo_globals demoImage_def channel_ok_def)

lemma demo_area: "getLedColorArea demoSampler 0 1 = Inr [[(2, 2), (3, 2), (4, 2)]]"
proof -
  have b: "imgBound demoSampler = Some (get_rect demoImage)"
    by (simp add: demoSampler_def setImage_fields)
  have na: "angleAveragePoints demoSampler = 1" and nr: "rAveragePoints demoSampler = 3"
    and rr: "rAverageResolution demoSampler = 1"
    by (simp_all add: demoSampler_def setImage_fields init_fields)
  have u1: "[0..(0::int)] = [0]" and u3: "[0..(2::int)] = [0, 1, 2]"
    by (simp_all add: upto.simps)
  show ?thesis
    unfolding getLedColorArea_closed [OF b] na nr
    by (simp add: u1 u3 footprintPoint_def rr nr na demo_rect getAngleRads_def)
qed

lemma demo_inBounds:
  "inBounds (get_rect demoImage) (2, 2)" "inBounds (get_rect demoImage) (3, 2)"
  "\<not> inBounds (get_rect demoImage) (4, 2)"
  by (simp_all add: inBounds_def demo_rect)

lemma demo_pixels:
  "pixelAt demoImage (2, 2) = (2, 2, 7, 255)" "pixelAt demoImage (3, 2) = (3, 2, 7, 255)"
  by (simp_all add: pixelAt_def py_int_def demoImage_def)


subsection \<open>Boundary extension\<close>

lemma addColor_assoc: "addColor (addColor a b) c = addColor a (addColor b c)"
  by (simp add: addColor_def split: prod.splits)

lemma addColor_zero: "addColor a (0, 0, 0) = a"
  by (simp add: addColor_def split: prod.splits)

lemma sumColors_Nil: "sumColors [] = (0, 0, 0)"
  by (simp add: sumColors_def)

lemma sumColors_Cons: "sumColors (c # cs) = addColor c (sumColors cs)"
  by (simp add: sumColors_def addColor_def split: prod.splits)

lemma contributing_0:
  "contributing im d (p # ps) 0 = (if inBounds (get_rect im) p then pixelAt im p else d)"
  by (simp add: contributing_def)

lemma contributing_Suc:
  "contributing im d (p # ps) (Suc i)
     = contributing im (if inBounds (get_rect im) p then pixelAt im p else d) ps i"
proof (cases "filter (inBounds (get_rect im)) (take i ps)")
  case Nil
  then show ?thesis by (simp add: contributing_def)
next
  case (Cons q qs)
  then show ?thesis by (simp add: contributing_def)
qed

lemma spec_visit_contributing:
  "spec_visit im bg lastGood acc ps =
     addColor acc
       (sumColors (map (\<lambda>i. weighted bg
                          (contributing im (case lastGood of None \<Rightarrow> opaque bg | Some q \<Rightarrow> q) ps i))
                     [0..<length ps]))"
proof (induction ps arbitrary: lastGood acc)
  case Nil
  then show ?case by (simp add: sumColors_Nil addColor_zero)
next
  case (Cons p ps)
  have idx: "[0..<length (p # ps)] = 0 # map Suc [0..<length ps]"
    by (simp add: upt_conv_Cons map_Suc_upt del: upt_Suc)
  show ?case
    unfolding idx
    by (simp add: Cons.IH sumColors_Cons contributing_0 contributing_Suc addColor_assoc o_def)
qed

lemma py_int_index_iff:
  assumes "0 < n"
  shows "(0 \<le> py_int x \<and> py_int x < int n) = (-1 < x \<and> x < real n)"
proof
  assume "-1 < x \<and> x < real n"
  then show "0 \<le> py_int x \<and> py_int x < int n"
    using py_int_index [of x n] assms by blast
next
  assume a: "0 \<le> py_int x \<and> py_int x < int n"
  show "-1 < x \<and> x < real n"
  proof (cases "0 \<le> x")
    case True
    with a have "\<lfloor>x\<rfloor> < int n" by (simp add: py_int_def)
    then have "x < real n" by (simp add: floor_less_iff)
    with True show ?thesis by simp
  next
    case False
    with a have "0 \<le> \<lceil>x\<rceil>" by (simp add: py_int_def)
    then have "-1 < x" by (simp add: le_ceiling_iff)
    moreover have "x < real n" using False assms by linarith
    ultimately show ?thesis by simp
  qed
qed

lemma inBounds_iff_truncated:
  assumes "0 < surf_w im" and "0 < surf_h im"
  shows "inBounds (get_rect im) p
         = (0 \<le> py_int (fst p) \<and> py_int (fst p) < int (surf_w im)
            \<and> 0 \<le> py_int (snd p) \<and> py_int (snd p) < int (surf_h im))"
  using py_int_index_iff [OF assms(1), of "fst p"] py_int_index_iff [OF assms(2), of "snd p"]
  by (auto simp: inBounds_def get_rect_def split: prod.splits)

text \<open>
  C5. In one traversal of \<open>getLedColor\<close>, a footprint point that is out of bounds
  contributes the pixel of the most recent in-bounds point before it, and the background
  at full opacity when there is none; an in-bounds point contributes its own pixel. The
  call returns a colour (no exception), each point weighted as lines 103-110 do and the
  sums divided by \<open>numberOfAveragedPixels\<close>. A point passes the test of line 96
  exactly when its truncated coordinates are pixel indices of the image.
\<close>

theorem getLedColor_boundary_extension:
  assumes "ready self g" and "getLedColorArea self angle ledRPosition = Inr area"
  shows "getLedColor self g angle ledRPosition =
     Inr (scaleColor
            (sumColors
               (map (\<lambda>i. weighted (backgroundFrameColor g)
                            (contributing (glob_img g) (opaque (backgroundFrameColor g))
                               (concat area) i))
                  [0..<length (concat area)]))
            (real_of_int (numberOfAveragedPixels self)))
     \<and> (\<forall>p. inBounds (get_rect (glob_img g)) p
              = (0 \<le> py_int (fst p) \<and> py_int (fst p) < int (surf_w (glob_img g))
                 \<and> 0 \<le> py_int (snd p) \<and> py_int (snd p) < int (surf_h (glob_img g))))"
proof -
  have z: "addColor (0, 0, 0) c = c" for c :: color
    by (simp add: addColor_def split: prod.splits)
  have "getLedColor self g angle ledRPosition =
     Inr (scaleColor
            (sumColors
               (map (\<lambda>i. weighted (backgroundFrameColor g)
                            (contributing (glob_img g) (opaque (backgroundFrameColor g))
                               (concat area) i))
                  [0..<length (concat area)]))
            (real_of_int (numberOfAveragedPixels self)))"
    unfolding getLedColor_as_visit [OF assms] spec_visit_contributing
    by (simp add: z)
  moreover from assms(1) have "0 < surf_w (glob_img g)" "0 < surf_h (glob_img g)"
    by (simp_all add: ready_def)
  ultimately show ?thesis
    using inBounds_iff_truncated by blast
qed

lemma demo_contributing:
  "contributing demoImage (opaque (255, 255, 255)) [(2, 2), (3, 2), (4, 2)] 2 = (3, 2, 7, 255)"
  "contributing demoImage (opaque (255, 255, 255)) [(4, 2), (3, 2)] 0 = (255, 255, 255, 255)"
  by (simp_all add: contributing_def demo_inBounds demo_pixels opaque_def)

theorem getLedColor_boundary_extension_witness:
  "ready demoSampler demoGlobals
   \<and> getLedColorArea demoSampler 0 1 = Inr [[(2, 2), (3, 2), (4, 2)]]
   \<and> \<not> inBounds (get_rect demoImage) (4, 2)
   \<and> contributing demoImage (opaque (255, 255, 255)) [(2, 2), (3, 2), (4, 2)] 2 = pixelAt demoImage (3, 2)
   \<and> getLedColor demoSampler demoGlobals 0 1 = Inr (8 / 3, 2, 7)"
proof -
  have idx: "[0..<3] = [0, Suc 0, Suc (Suc 0)]" by (simp add: upt_rec)
  have c: "contributing demoImage (opaque (255, 255, 255)) [(2, 2), (3, 2), (4, 2)] 0 = (2, 2, 7, 255)"
    "contributing demoImage (opaque (255, 255, 255)) [(2, 2), (3, 2), (4, 2)] (Suc 0) = (3, 2, 7, 255)"
    "contributing demoImage (opaque (255, 255, 255)) [(2, 2), (3, 2), (4, 2)] (Suc (Suc 0)) = (3, 2, 7, 255)"
    by (simp_all add: contributing_def demo_inBounds demo_pixels)
  have n: "numberOfAveragedPixels demoSampler = 3"
    by (simp add: demoSampler_def setImage_fields init_fields)
  have "getLedColor demoSampler demoGlobals 0 1 = Inr (8 / 3, 2, 7)"
    unfolding getLedColor_boundary_extension [OF demo_ready demo_area, THEN conjunct1]
    by (simp add: demo_globals idx c n sumColors_def scaleColor_def weighted_def)
  then show ?thesis
    using demo_ready demo_area demo_inBounds(3) demo_contributing(1) demo_pixels(2) by simp
qed

subsection \<open>A fully transparent image\<close>

lemma pixelAt_in_range:
  assumes "inBounds (get_rect im) p" and "0 < surf_w im" and "0 < surf_h im"
  shows "\<exists>x y. x < surf_w im \<and> y < surf_h im \<and> pixelAt im p = surf_px im x y"
proof -
  from inBounds_index [OF assms]
  have "nat (py_int (fst p)) < surf_w im" "nat (py_int (snd p)) < surf_h im" by linarith+
  then show ?thesis unfolding pixelAt_def by blast
qed

lemma weighted_transparent: "weighted bg (r, g, b, 0) = (0, 0, 0)"
  by (simp add: weighted_def split: prod.splits)

lemma spec_visit_all_zero:
  assumes "\<And>q. inBounds (get_rect im) q \<Longrightarrow> weighted bg (pixelAt im q) = (0, 0, 0)"
  shows "\<forall>q \<in> set ps. inBounds (get_rect im) q \<Longrightarrow> spec_visit im bg lastGood acc ps = acc"
  by (induction ps arbitrary: lastGood acc) (simp_all add: assms addColor_zero)

text \<open>
  C4. When every pixel of the image has alpha 0 and every point of the footprint is in
  bounds, \<open>getLedColor\<close> returns (0, 0, 0): each point adds channel * 0 / 255, and
  the opaque background that \<open>lastGoodPixel\<close> starts with is never used.
\<close>

theorem getLedColor_transparent_black:
  assumes "ready self g"
    and "\<forall>x < surf_w (glob_img g). \<forall>y < surf_h (glob_img g).
           snd (snd (snd (surf_px (glob_img g) x y))) = 0"
    and "getLedColorArea self angle ledRPosition = Inr area"
    and "\<forall>row \<in> set area. \<forall>p \<in> set row. inBounds (get_rect (glob_img g)) p"
  shows "getLedColor self g angle ledRPosition = Inr (0, 0, 0)"
proof -
  from assms(1) have wh: "0 < surf_w (glob_img g)" "0 < surf_h (glob_img g)"
    by (simp_all add: ready_def)
  have zero: "weighted (backgroundFrameColor g) (pixelAt (glob_img g) q) = (0, 0, 0)"
    if "inBounds (get_rect (glob_img g)) q" for q
  proof -
    from pixelAt_in_range [OF that wh] obtain x y where
      "x < surf_w (glob_img g)" "y < surf_h (glob_img g)"
      and px: "pixelAt (glob_img g) q = surf_px (glob_img g) x y"
      by blast
    with assms(2) have "snd (snd (snd (pixelAt (glob_img g) q))) = 0" by simp
    then obtain r g' b where "pixelAt (glob_img g) q = (r, g', b, 0)"
      by (cases "pixelAt (glob_img g) q") auto
    then show ?thesis by (simp add: weighted_transparent)
  qed
  have inb: "\<forall>q \<in> set (concat area). inBounds (get_rect (glob_img g)) q"
    using assms(4) by auto
  have v: "spec_visit (glob_img g) (backgroundFrameColor g) None (0, 0, 0) (concat area) = (0, 0, 0)"
    using zero inb by (rule spec_visit_all_zero)
  show ?thesis
    unfolding getLedColor_as_visit [OF assms(1,3)] v
    by (simp add: scaleColor_def)
qed

lemma clear_globals:
  "glob_img clearGlobals = clearImage" "backgroundFrameColor clearGlobals = (255, 255, 255)"
  by (simp_all add: clearGlobals_def)

lemma clear_ready: "ready clearSampler clearGlobals"
  unfolding clearSampler_def
  using ready_setup [of clearGlobals 255 255 255 0 1 2 3]
  by (simp add: clear_globals clearImage_def channel_ok_def)

lemma clear_rect: "get_rect clearImage = get_rect demoImage"
  by (simp add: get_rect_def clearImage_def demoImage_def)

lemma clear_area: "getLedColorArea clearSampler 0 0 = Inr [[(1, 2), (2, 2), (3, 2)]]"
proof -
  have b: "imgBound clearSampler = Some (get_rect demoImage)"
    by (simp add: clearSampler_def setImage_fields clear_rect)
  have na: "angleAveragePoints clearSampler = 1" and nr: "rAveragePoints clearSampler = 3"
    and rr: "rAverageResolution clearSampler = 1"
    by (simp_all add: clearSampler_def setImage_fields init_fields)
  have u1: "[0..(0::int)] = [0]" and u3: "[0..(2::int)] = [0, 1, 2]"
    by (simp_all add: upto.simps)
  show ?thesis
    unfolding getLedColorArea_closed [OF b] na nr
    by (simp add: u1 u3 footprintPoint_def rr nr na demo_rect getAngleRads_def)
qed

theorem getLedColor_transparent_black_witness:
  "ready clearSampler clearGlobals
   \<and> (\<forall>x y. snd (snd (snd (surf_px (glob_img clearGlobals) x y))) = 0)
   \<and> getLedColorArea clearSampler 0 0 = Inr [[(1, 2), (2, 2), (3, 2)]]
   \<and> inBounds (get_rect (glob_img clearGlobals)) (1, 2)
   \<and> inBounds (get_rect (glob_img clearGlobals)) (2, 2)
   \<and> inBounds (get_rect (glob_img clearGlobals)) (3, 2)
   \<and> getLedColor clearSampler clearGlobals 0 0 = Inr (0, 0, 0)
   \<and> getLedColor clearSampler clearGlobals 0 0 \<noteq> Inr (255, 255, 255)"
proof -
  have a: "\<forall>x y. snd (snd (snd (surf_px (glob_img clearGlobals) x y))) = 0"
    by (simp add: clear_globals clearImage_def)
  have i: "inBounds (get_rect (glob_img clearGlobals)) (1, 2)"
    "inBounds (get_rect (glob_img clearGlobals)) (2, 2)"
    "inBounds (get_rect (glob_img clearGlobals)) (3, 2)"
    by (simp_all add: clear_globals clear_rect inBounds_def demo_rect)
  have "getLedColor clearSampler clearGlobals 0 0 = Inr (0, 0, 0)"
    by (rule getLedColor_transparent_black [OF clear_ready _ clear_area]) (use a i in simp_all)
  then show ?thesis using clear_ready a clear_area i by simp
qed

subsection \<open>A single opaque pixel\<close>

lemma length_concat_grid:
  "length (concat (map (\<lambda>t. map (f t) xs) ts)) = length ts * length xs"
  by (induction ts) simp_all

lemma length_concat_area:
  assumes "imgBound self = Some b" and "getLedColorArea self angle ledRPosition = Inr area"
  shows "length (concat area) = nat (angleAveragePoints self) * nat (rAveragePoints self)"
  using assms(2) unfolding getLedColorArea_closed [OF assms(1)]
  by (auto simp: length_concat_grid)

lemma scaleColor_all:
  "n \<noteq> 0 \<Longrightarrow> scaleColor (n * r, n * g, n * b) n = (r, g, b)"
  by (simp add: scaleColor_def)

lemma spec_visit_constant:
  assumes "\<And>q. inBounds (get_rect im) q \<Longrightarrow> pixelAt im q = P"
    and "weighted bg P = (r, g, b)"
  shows "spec_visit im bg (Some P) (ar, ag, ab) ps
         = (ar + real (length ps) * r, ag + real (length ps) * g, ab + real (length ps) * b)"
  by (induction ps arbitrary: ar ag ab) (simp_all add: assms addColor_def algebra_simps)

lemma weighted_opaque: "weighted bg (r, g, b, 255) = (real_of_int r, real_of_int g, real_of_int b)"
  by (simp add: weighted_def split: prod.splits)

text \<open>
  C3, as the code has it. On a 1 by 1 image whose pixel is opaque, \<open>getLedColor\<close>
  returns exactly the pixel's R, G, B for every query whose first footprint point (in
  traversal order) is in bounds. Points visited before any in-bounds point take the
  background of line 90 instead, so the result does depend on the query: the
  counterexample below is a query that returns the white background.
\<close>

theorem getLedColor_single_pixel:
  assumes "ready self g"
    and "surf_w (glob_img g) = 1" and "surf_h (glob_img g) = 1"
    and "surf_px (glob_img g) 0 0 = (R, G, B, 255)"
    and "getLedColorArea self angle ledRPosition = Inr area"
    and "concat area = p # ps"
    and "inBounds (get_rect (glob_img g)) p"
  shows "getLedColor self g angle ledRPosition = Inr (real_of_int R, real_of_int G, real_of_int B)"
proof -
  let ?im = "glob_img g" and ?bg = "backgroundFrameColor g"
  from assms(1) have b: "imgBound self = Some (get_rect ?im)"
    and n: "numberOfAveragedPixels self = angleAveragePoints self * rAveragePoints self"
    by (simp_all add: ready_def)
  have wh: "0 < surf_w ?im" "0 < surf_h ?im" using assms(2,3) by simp_all
  have px: "pixelAt ?im q = (R, G, B, 255)" if "inBounds (get_rect ?im) q" for q
  proof -
    from pixelAt_in_range [OF that wh] obtain x y where
      "x < surf_w ?im" "y < surf_h ?im" "pixelAt ?im q = surf_px ?im x y" by blast
    then show ?thesis using assms(2,3,4) by simp
  qed
  have len: "Suc (length ps) = nat (angleAveragePoints self) * nat (rAveragePoints self)"
    using length_concat_area [OF b assms(5)] assms(6) by simp
  then have pos: "0 < angleAveragePoints self" "0 < rAveragePoints self"
    by (auto simp: zero_less_nat_eq [symmetric] simp del: zero_less_nat_eq intro: Nat.gr0I)
  have "int (Suc (length ps)) = angleAveragePoints self * rAveragePoints self"
    unfolding len using pos by (simp add: nat_mult_distrib)
  then have N: "real_of_int (numberOfAveragedPixels self) = real (Suc (length ps))"
    unfolding n by (metis of_int_of_nat_eq)
  have v: "spec_visit ?im ?bg None (0, 0, 0) (concat area)
        = (real (Suc (length ps)) * real_of_int R, real (Suc (length ps)) * real_of_int G,
           real (Suc (length ps)) * real_of_int B)"
    unfolding assms(6)
    using assms(7) px [OF assms(7)]
    by (simp add: spec_visit_constant [OF px weighted_opaque] weighted_opaque addColor_def
        algebra_simps)
  show ?thesis
    unfolding getLedColor_as_visit [OF assms(1,5)] v N
    by (rule arg_cong [where f = Inr], rule scaleColor_all) simp
qed

lemma onePixel_globals:
  "glob_img onePixelGlobals = onePixelImage"
  "backgroundFrameColor onePixelGlobals = (255, 255, 255)"
  by (simp_all add: onePixelGlobals_def)

lemma onePixel_rect:
  "centerx (get_rect onePixelImage) = 0" "centery (get_rect onePixelImage) = 0"
  "rect_w (get_rect onePixelImage) = 1" "rect_h (get_rect onePixelImage) = 1"
  by (simp_all add: centerx_def centery_def get_rect_def onePixelImage_def)

lemma onePixel_ready: "ready onePixelSampler onePixelGlobals"
  unfolding onePixelSampler_def
  using ready_setup [of onePixelGlobals 255 255 255 0 1 0 1]
  by (simp add: onePixel_globals onePixelImage_def channel_ok_def)

lemma onePixel_area:
  "getLedColorArea onePixelSampler angle ledRPosition =
     Inr [[(ledRPosition * cos (getAngleRads angle), 1 - ledRPosition * sin (getAngleRads angle))]]"
proof -
  have b: "imgBound onePixelSampler = Some (get_rect onePixelImage)"
    by (simp add: onePixelSampler_def setImage_fields)
  have na: "angleAveragePoints onePixelSampler = 1" and nr: "rAveragePoints onePixelSampler = 1"
    by (simp_all add: onePixelSampler_def setImage_fields init_fields)
  have u1: "[0..(0::int)] = [0]"
    by (simp add: upto.simps)
  show ?thesis
    unfolding getLedColorArea_closed [OF b] na nr
    by (simp add: u1 footprintPoint_def nr na onePixel_rect Let_def)
qed

theorem getLedColor_single_pixel_counterexample:
  "surf_w onePixelImage = 1 \<and> surf_h onePixelImage = 1
   \<and> surf_px onePixelImage 0 0 = (10, 20, 30, 255)
   \<and> onePixelSampler = setImage (init 0 1 0 1) (glob_img onePixelGlobals)
   \<and> getLedColor onePixelSampler onePixelGlobals 0 5 = Inr (255, 255, 255)
   \<and> getLedColor onePixelSampler onePixelGlobals 0 5 \<noteq> Inr (10, 20, 30)"
proof -
  have a: "getLedColorArea onePixelSampler 0 5 = Inr [[(5, 1)]]"
    unfolding onePixel_area by (simp add: getAngleRads_def)
  have out: "\<not> inBounds (get_rect onePixelImage) (5, 1)"
    by (simp add: inBounds_def onePixel_rect)
  have n: "numberOfAveragedPixels onePixelSampler = 1"
    by (simp add: onePixelSampler_def setImage_fields init_fields)
  have "getLedColor onePixelSampler onePixelGlobals 0 5 = Inr (255, 255, 255)"
    unfolding getLedColor_as_visit [OF onePixel_ready a]
    by (simp add: onePixel_globals out n opaque_def weighted_def addColor_def scaleColor_def)
  then show ?thesis
    by (simp add: onePixelImage_def onePixelSampler_def onePixel_globals)
qed

text \<open>
  A query at 90 degrees and radius 3 / 2 with three radial samples: the first two points
  are in bounds and the third is not, so that it takes the last in-bounds pixel. On
  doubles \<open>math.sin\<close> of pi / 2 is exactly 1 and \<open>math.cos\<close> of pi / 2 is about
  6.1e-17, so the code's x coordinates differ from 0 by less than 1e-15, which changes
  neither a test of line 96 nor a truncated index.
\<close>

lemma onePixelRadial_ready: "ready onePixelRadialSampler onePixelGlobals"
  unfolding onePixelRadialSampler_def
  using ready_setup [of onePixelGlobals 255 255 255 0 1 2 3]
  by (simp add: onePixel_globals onePixelImage_def channel_ok_def)

lemma onePixelRadial_area:
  "getLedColorArea onePixelRadialSampler 90 (3 / 2) = Inr [[(0, 1 / 2), (0, - 1 / 2), (0, - 3 / 2)]]"
proof -
  have b: "imgBound onePixelRadialSampler = Some (get_rect onePixelImage)"
    by (simp add: onePixelRadialSampler_def setImage_fields)
  have na: "angleAveragePoints onePixelRadialSampler = 1"
    and nr: "rAveragePoints onePixelRadialSampler = 3"
    and rr: "rAverageResolution onePixelRadialSampler = 1"
    by (simp_all add: onePixelRadialSampler_def setImage_fields init_fields)
  have u1: "[0..(0::int)] = [0]" and u3: "[0..(2::int)] = [0, 1, 2]"
    by (simp_all add: upto.simps)
  show ?thesis
    unfolding getLedColorArea_closed [OF b] na nr
    by (simp add: u1 u3 footprintPoint_def rr nr na onePixel_rect getAngleRads_def)
qed

theorem getLedColor_single_pixel_witness:
  "ready onePixelRadialSampler onePixelGlobals
   \<and> surf_w (glob_img onePixelGlobals) = 1 \<and> surf_h (glob_img onePixelGlobals) = 1
   \<and> surf_px (glob_img onePixelGlobals) 0 0 = (10, 20, 30, 255)
   \<and> getLedColorArea onePixelRadialSampler 90 (3 / 2)
       = Inr [[(0, 1 / 2), (0, - 1 / 2), (0, - 3 / 2)]]
   \<and> inBounds (get_rect (glob_img onePixelGlobals)) (0, 1 / 2)
   \<and> inBounds (get_rect (glob_img onePixelGlobals)) (0, - 1 / 2)
   \<and> \<not> inBounds (get_rect (glob_img onePixelGlobals)) (0, - 3 / 2)
   \<and> getLedColor onePixelRadialSampler onePixelGlobals 90 (3 / 2) = Inr (10, 20, 30)"
proof -
  note a = onePixelRadial_area
  have i: "inBounds (get_rect (glob_img onePixelGlobals)) (0, 1 / 2)"
    "inBounds (get_rect (glob_img onePixelGlobals)) (0, - 1 / 2)"
    "\<not> inBounds (get_rect (glob_img onePixelGlobals)) (0, - 3 / 2)"
    by (simp_all add: inBounds_def onePixel_rect onePixel_globals)
  have s: "surf_w (glob_img onePixelGlobals) = 1" "surf_h (glob_img onePixelGlobals) = 1"
    "surf_px (glob_img onePixelGlobals) 0 0 = (10, 20, 30, 255)"
    by (simp_all add: onePixel_globals onePixelImage_def)
  have "getLedColor onePixelRadialSampler onePixelGlobals 90 (3 / 2) = Inr (10, 20, 30)"
    using getLedColor_single_pixel [OF onePixelRadial_ready s a _ i(1)] by simp
  then show ?thesis using onePixelRadial_ready s a i by simp
qed

subsection \<open>Which image is read\<close>

lemma areaPoint_ignores_img:
  "areaPoint (self\<lparr>img := v\<rparr>) dangle ledRPosition = areaPoint self dangle ledRPosition"
  by (rule ext) (simp add: areaPoint_def Let_def cong: option.case_cong)

lemma areaRow_ignores_img:
  "areaRow (self\<lparr>img := v\<rparr>) angle ledRPosition = areaRow self angle ledRPosition"
  by (rule ext) (simp add: areaRow_def areaPoint_ignores_img)

lemma colorStep_ignores_img: "colorStep (self\<lparr>img := v\<rparr>) g = colorStep self g"
  by (rule ext, rule ext) (simp add: colorStep_def inBoundsTest_def Let_def cong: option.case_cong prod.case_cong sum.case_cong if_cong)

lemma getLedColor_ignores_img:
  "getLedColor (self\<lparr>img := v\<rparr>) g angle ledRPosition = getLedColor self g angle ledRPosition"
  by (simp add: getLedColor_def getLedColorArea_def areaRow_ignores_img colorStep_ignores_img Let_def
      cong: sum.case_cong if_cong)

text \<open>
  C10. \<open>setImage\<close> only fixes the bounds, centre and flip height that the sampler
  uses; the pixels come from the module-global image. Two runs with the same globals
  (image and background) and the same object, whose \<open>setImage\<close> arguments have the
  same rectangle, get equal results from \<open>getLedColor\<close> for every query, whatever the
  pixels of the \<open>setImage\<close> arguments are.
\<close>

theorem getLedColor_reads_global_image:
  assumes "get_rect im1 = get_rect im2"
  shows "getLedColor (setImage self im1) g angle ledRPosition
         = getLedColor (setImage self im2) g angle ledRPosition"
proof -
  have "setImage self im1 = (setImage self im2)\<lparr>img := Some im1\<rparr>"
    by (simp add: setImage_def assms)
  then show ?thesis by (simp only: getLedColor_ignores_img)
qed

theorem getLedColor_reads_global_image_witness:
  "get_rect clearImage = get_rect demoImage
   \<and> surf_px clearImage 0 0 \<noteq> surf_px demoImage 0 0
   \<and> getLedColor (setImage (init 0 1 2 3) clearImage) demoGlobals 0 1
       = getLedColor (setImage (init 0 1 2 3) demoImage) demoGlobals 0 1
   \<and> getLedColor (setImage (init 0 1 2 3) clearImage) demoGlobals 0 1 = Inr (8 / 3, 2, 7)"
proof -
  have d: "surf_px clearImage 0 0 \<noteq> surf_px demoImage 0 0"
    by (simp add: clearImage_def demoImage_def)
  have e: "getLedColor (setImage (init 0 1 2 3) clearImage) demoGlobals 0 1
       = getLedColor (setImage (init 0 1 2 3) demoImage) demoGlobals 0 1"
    using getLedColor_reads_global_image [OF clear_rect] .
  have "getLedColor (setImage (init 0 1 2 3) demoImage) demoGlobals 0 1 = Inr (8 / 3, 2, 7)"
    unfolding getLedColor_as_visit [OF demo_ready demo_area, unfolded demoSampler_def]
    by (simp add: demo_globals demo_inBounds demo_pixels weighted_def addColor_def
        scaleColor_def setImage_fields init_fields)
  with d e clear_rect show ?thesis by simp
qed

subsection \<open>The sweep\<close>





lemma getLedColor_ready_total:
  assumes "ready self g"
  shows "\<exists>c. getLedColor self g angle ledRPosition = Inr c"
proof -
  from assms have "imgBound self = Some (get_rect (glob_img g))" by (simp add: ready_def)
  from getLedColorArea_total [OF this] obtain area where
    "getLedColorArea self angle ledRPosition = Inr area" by blast
  from getLedColor_as_visit [OF assms this] show ?thesis by blast
qed









subsection \<open>The sweep with an increment that is not positive\<close>

text \<open>
  With an increment that is not positive the loop of lines 122-124 never leaves: the
  angle stays below 360 and \<open>getLedColor\<close> raises nothing.
\<close>

lemma getLedColorsLoop_nonpositive:
  assumes "getLedColorsLoop self g angleIncrement ledRPosition angle ret = Some res"
  shows "\<not> (ready self g \<and> angleIncrement \<le> 0 \<and> angle < 360)"
proof (rule getLedColorsLoop.raw_induct
    [where P = "\<lambda>self g inc r angle ret res. \<not> (ready self g \<and> inc \<le> 0 \<and> angle < 360)",
      OF _ assms])
  fix loop :: "ImageToLed \<Rightarrow> globals \<Rightarrow> int \<Rightarrow> real \<Rightarrow> int \<Rightarrow> color list
                \<Rightarrow> (pyerror + color list) option"
    and self g and inc :: int and r :: real and angle :: int and ret res
  assume IH: "\<And>self g inc r angle ret res.
      loop self g inc r angle ret = Some res \<Longrightarrow> \<not> (ready self g \<and> inc \<le> 0 \<and> angle < 360)"
    and step: "(if angle < 360
      then case getLedColor self g (real_of_int angle) r of
           Inl e \<Rightarrow> Some (Inl e)
           | Inr c \<Rightarrow> loop self g inc r (angle + inc) (ret @ [c])
      else Some (Inr ret)) = Some res"
  show "\<not> (ready self g \<and> inc \<le> 0 \<and> angle < 360)"
  proof
    assume a: "ready self g \<and> inc \<le> 0 \<and> angle < 360"
    then obtain c where c: "getLedColor self g (real_of_int angle) r = Inr c"
      using getLedColor_ready_total by blast
    from step a c have "loop self g inc r (angle + inc) (ret @ [c]) = Some res"
      by simp
    from IH [OF this] a show False by simp
  qed
qed

lemma getLedColors_nonpositive_diverges:
  assumes "ready self g" and "angleIncrement \<le> 0"
  shows "getLedColors self g angleIncrement ledRPosition = None"
proof (cases "getLedColors self g angleIncrement ledRPosition")
  case None
  then show ?thesis .
next
  case (Some res)
  then have "\<not> (ready self g \<and> angleIncrement \<le> 0 \<and> (0::int) < 360)"
    unfolding getLedColors_def by (rule getLedColorsLoop_nonpositive)
  with assms show ?thesis by simp
qed

subsection \<open>Totality, on doubles\<close>






































end
